theory Spec2Isabelle
  imports Complex_Main "HOL-Library.Signed_Division"
begin

section \<open>Machine integers and C strings\<close>

text \<open>
  The C++ integers are modelled as \<open>int\<close>. The quotient and remainder of C++ truncate
  towards zero: they are \<open>sdiv\<close> and \<open>smod\<close>. Signed overflow is undefined in C++;
  the model writes the two's complement wrap-around out (\<open>s64\<close> for \<open>int64_t\<close>,
  \<open>s32\<close> for \<open>int32_t\<close>) at the operations on \<open>result\<close> and \<open>scale\<close> in the parser
  and at the negation in the formatter. The counters and digit values stay small.
\<close>

definition s64 :: "int \<Rightarrow> int" where
  "s64 k = (k + 2 ^ 63) mod 2 ^ 64 - 2 ^ 63"

definition s32 :: "int \<Rightarrow> int" where
  "s32 k = (k + 2 ^ 31) mod 2 ^ 32 - 2 ^ 31"

definition int32_max :: int where
  "int32_max = 2147483647"

definition int32_min :: int where
  "int32_min = - 2147483648"

text \<open>
  A \<open>const char*\<close> is the list of the characters from the pointer on; what \<open>*str\<close>
  reads at the end of the list is the terminating NUL. \<open>++str\<close> is \<open>tl\<close>; the code
  only advances past a character it has just matched, never past the terminator.
\<close>

definition NUL :: char where
  "NUL = CHR 0x00"

definition peek :: "string \<Rightarrow> char" where
  "peek str = (case str of [] \<Rightarrow> NUL | c # _ \<Rightarrow> c)"

text \<open>The C string at a pointer: the characters before the first NUL.\<close>

definition c_str :: "string \<Rightarrow> string" where
  "c_str str = takeWhile (\<lambda>c. c \<noteq> NUL) str"

text \<open>\<open>c >= '0' && c <= '9'\<close> and \<open>c - '0'\<close>.\<close>

definition is_digit :: "char \<Rightarrow> bool" where
  "is_digit c \<longleftrightarrow> (48::nat) \<le> of_char c \<and> (of_char c :: nat) \<le> 57"

definition digit_val :: "char \<Rightarrow> int" where
  "digit_val c = int (of_char c) - 48"

section \<open>The exception\<close>

datatype error = invalid_location string

definition wrong_format :: "string \<Rightarrow> error" where
  "wrong_format full =
     invalid_location (''wrong format for coordinate: '' @ [CHR 0x27] @ c_str full @ [CHR 0x27])"

definition characters_after :: "string \<Rightarrow> error" where
  "characters_after data =
     invalid_location (''characters after coordinate: '' @ [CHR 0x27] @ c_str data @ [CHR 0x27])"

section \<open>\<open>detail::string_to_location_coordinate\<close>\<close>

definition coordinate_precision :: int where
  "coordinate_precision = 10000000"

text \<open>
  The loop \<open>while (*str >= '0' && *str <= '9' && n > 0) { acc = acc * 10 + (*str - '0');
  ++str; --n; }\<close>. The parser has it three times: for the digits after the first one of
  the integer part (\<open>acc\<close> is \<open>result\<close>, \<open>n\<close> is \<open>max_digits\<close>), for the significant
  digits of the fraction (\<open>result\<close> and \<open>scale\<close>) and for the digits after the first one
  of the exponent (\<open>eresult\<close> and \<open>max_digits\<close>). It returns the cursor, the accumulator
  and the counter.
\<close>

fun read_digits :: "string \<Rightarrow> int \<Rightarrow> int \<Rightarrow> string \<times> int \<times> int" where
  "read_digits [] acc n = ([], acc, n)"
| "read_digits (c # cs) acc n =
     (if is_digit c \<and> n > 0 then read_digits cs (s64 (acc * 10 + digit_val c)) (n - 1)
      else (c # cs, acc, n))"

text \<open>
  The loop \<open>while (*str >= '0' && *str <= '9' && max_digits > 0) { ++str; --max_digits; }\<close>
  over the non-significant digits of the fraction.
\<close>

fun skip_digits :: "string \<Rightarrow> int \<Rightarrow> string \<times> int" where
  "skip_digits [] max_digits = ([], max_digits)"
| "skip_digits (c # cs) max_digits =
     (if is_digit c \<and> max_digits > 0 then skip_digits cs (max_digits - 1)
      else (c # cs, max_digits))"

text \<open>
  The integer part (lines 89 to 114): \<open>None\<close> is \<open>goto error\<close>, otherwise the cursor
  and \<open>result\<close>.
\<close>

definition integer_part :: "string \<Rightarrow> (string \<times> int) option" where
  "integer_part str =
     (if peek str \<noteq> CHR ''.'' then
        (if is_digit (peek str) then
           (let (str', result, max_digits) = read_digits (tl str) (digit_val (peek str)) 10
            in if max_digits = 0 then None else Some (str', result))
         else None)
      else
        (if \<not> is_digit (peek (tl str)) then None else Some (str, 0)))"

text \<open>
  The optional fraction (lines 117 to 135): \<open>None\<close> is \<open>goto error\<close>, otherwise the
  cursor, \<open>result\<close> and \<open>scale\<close>.
\<close>

definition fraction_part :: "string \<Rightarrow> int \<Rightarrow> int \<Rightarrow> (string \<times> int \<times> int) option" where
  "fraction_part str result scale =
     (if peek str = CHR ''.'' then
        (let (str1, result', scale') = read_digits (tl str) result scale;
             (str2, max_digits) = skip_digits str1 20
         in if max_digits = 0 then None else Some (str2, result', scale'))
      else Some (str, result, scale))"

text \<open>
  The optional exponent (lines 138 to 171): \<open>None\<close> is \<open>goto error\<close>, otherwise the
  cursor and \<open>scale\<close>.
\<close>

definition exponent_part :: "string \<Rightarrow> int \<Rightarrow> (string \<times> int) option" where
  "exponent_part str scale =
     (if peek str = CHR ''e'' \<or> peek str = CHR ''E'' then
        (let str1 = tl str;
             (esign, str2) = (if peek str1 = CHR ''-'' then (- 1, tl str1) else (1, str1))
         in if is_digit (peek str2) then
              (let (str3, eresult, max_digits) = read_digits (tl str2) (digit_val (peek str2)) 5
               in if max_digits = 0 then None else Some (str3, s64 (scale + eresult * esign)))
            else None)
      else Some (str, scale))"

text \<open>The two loops of lines 173 to 181; only \<open>result\<close> is used afterwards.\<close>

function scale_down :: "int \<Rightarrow> int \<Rightarrow> int" where
  "scale_down result scale =
     (if scale < 0 \<and> result > 0 then scale_down (result sdiv 10) (scale + 1) else result)"
  by pat_completeness auto
termination
  by (relation "measure (\<lambda>(result, scale). nat (- scale))") auto

function scale_up :: "int \<Rightarrow> int \<Rightarrow> int" where
  "scale_up result scale =
     (if scale > 0 then scale_up (s64 (result * 10)) (scale - 1) else result)"
  by pat_completeness auto
termination
  by (relation "measure (\<lambda>(result, scale). nat scale)") auto

definition apply_scale :: "int \<Rightarrow> int \<Rightarrow> int" where
  "apply_scale result scale =
     (if scale < 0 then scale_down result scale else scale_up result scale)"

text \<open>
  The parser takes \<open>const char** data\<close>. The model takes the string at \<open>*data\<close> and
  returns, on success, the coordinate and the string at the new \<open>*data\<close>; a throw is
  \<open>Inl\<close>, and \<open>*data\<close> is then not written.
\<close>

definition string_to_location_coordinate :: "string \<Rightarrow> error + (int \<times> string)" where
  "string_to_location_coordinate full =
     (let (sign, str0) = (if peek full = CHR ''-'' then (- 1, tl full) else (1, full))
      in case integer_part str0 of
           None \<Rightarrow> Inl (wrong_format full)
         | Some (str1, result1) \<Rightarrow>
        (case fraction_part str1 result1 8 of
           None \<Rightarrow> Inl (wrong_format full)
         | Some (str2, result2, scale2) \<Rightarrow>
        (case exponent_part str2 scale2 of
           None \<Rightarrow> Inl (wrong_format full)
         | Some (str3, scale3) \<Rightarrow>
        (let result3 = apply_scale result2 scale3;
             result = s64 (s64 (result3 + 5) sdiv 10 * sign)
         in if result > int32_max \<or> result < int32_min then Inl (wrong_format full)
            else Inr (result, str3)))))"

section \<open>\<open>detail::append_location_coordinate_to_string\<close>\<close>

text \<open>
  The buffer \<open>temp\<close> with its write pointer \<open>t\<close> is the list of the characters written
  so far, least significant digit first: \<open>*t++ = c\<close> appends, \<open>t - temp\<close> is the length,
  \<open>*--t\<close> reads the character at index \<open>t - 1\<close>. The do-while loop of lines 211 to 214:
\<close>

function write_digits :: "int \<Rightarrow> string" where
  "write_digits v =
     (let c = char_of (v smod 10 + 48); v' = v sdiv 10
      in if v' \<noteq> 0 then c # write_digits v' else [c])"
  by pat_completeness auto
termination
proof (relation "measure (\<lambda>v. nat \<bar>v\<bar>)")
  show "wf (measure (\<lambda>v. nat \<bar>v\<bar>))" by simp
next
  fix v :: int and c :: char and v' :: int
  assume "v' = v sdiv 10" and "v' \<noteq> 0"
  then have "\<bar>v'\<bar> < \<bar>v\<bar>"
    by (auto simp: signed_divide_int_def abs_mult sgn_if split: if_splits)
  then show "(v', v) \<in> measure (\<lambda>v. nat \<bar>v\<bar>)" by simp
qed

text \<open>\<open>while (t-temp < 7) { *t++ = '0'; }\<close>\<close>

function pad_zeros :: "string \<Rightarrow> string" where
  "pad_zeros temp = (if length temp < 7 then pad_zeros (temp @ ''0'') else temp)"
  by pat_completeness auto
termination
  by (relation "measure (\<lambda>temp. 7 - length temp)") auto

text \<open>\<open>while (tn < t && *tn == '0') { ++tn; }\<close>, with \<open>tn\<close> and \<open>t\<close> as indices.\<close>

function skip_zeros :: "string \<Rightarrow> nat \<Rightarrow> nat \<Rightarrow> nat" where
  "skip_zeros temp t tn =
     (if tn < t \<and> temp ! tn = CHR ''0'' then skip_zeros temp t (tn + 1) else tn)"
  by pat_completeness auto
termination
  by (relation "measure (\<lambda>(temp, t, tn). t - tn)") auto

text \<open>
  \<open>while (t != tn) { *iterator++ = *--t; }\<close>: the characters written. The code reaches
  the loop with \<open>tn \<le> t\<close>, so \<open>t\<close> meets \<open>tn\<close> before it leaves the buffer.
\<close>

fun write_fraction :: "string \<Rightarrow> nat \<Rightarrow> nat \<Rightarrow> string" where
  "write_fraction temp 0 tn = []"
| "write_fraction temp (Suc t) tn =
     (if Suc t \<noteq> tn then temp ! t # write_fraction temp t tn else [])"

text \<open>
  The output iterator is the string written so far; the function returns it with the
  coordinate appended.
\<close>

definition append_location_coordinate_to_string :: "string \<Rightarrow> int \<Rightarrow> string" where
  "append_location_coordinate_to_string iterator0 value0 =
     (let (iterator1, val) =
            (if value0 < 0 then (iterator0 @ ''-'', s32 (- value0)) else (iterator0, value0));
          temp = pad_zeros (write_digits val);
          t = length temp;
          (iterator2, t') =
            (if val \<ge> coordinate_precision then
               (let (it_a, t_a) =
                      (if val \<ge> 10 * coordinate_precision then
                         (let (it_b, t_b) =
                                (if val \<ge> 100 * coordinate_precision
                                 then (iterator1 @ [temp ! (t - 1)], t - 1)
                                 else (iterator1, t))
                          in (it_b @ [temp ! (t_b - 1)], t_b - 1))
                       else (iterator1, t))
                in (it_a @ [temp ! (t_a - 1)], t_a - 1))
             else (iterator1 @ ''0'', t));
          tn = skip_zeros temp t' 0
      in if t' \<noteq> tn then iterator2 @ ''.'' @ write_fraction temp t' tn else iterator2)"

text \<open>
  The digits before and after the decimal point, read off the buffer: the characters
  from index 7 upwards, most significant first (a single \<open>0\<close> below the precision),
  and the characters below index 7 without the zeros at the low end. The source has no
  such functions: they name the two parts of the output in the lemmas on the formatter.
\<close>

definition int_chars :: "int \<Rightarrow> string" where
  "int_chars val =
     (if 10000000 \<le> val then rev (drop 7 (pad_zeros (write_digits val))) else ''0'')"

definition frac_chars :: "int \<Rightarrow> string" where
  "frac_chars val =
     rev (dropWhile (\<lambda>c. c = CHR ''0'') (take 7 (pad_zeros (write_digits val))))"

section \<open>\<open>class Location\<close>\<close>

record Location =
  m_x :: int
  m_y :: int

definition undefined_coordinate :: int where
  "undefined_coordinate = 2147483647"

text \<open>
  \<open>fix_to_double\<close> divides two doubles. The model takes the quotient in the reals: the
  rounding of the division to a double is not modelled.
\<close>

definition fix_to_double :: "int \<Rightarrow> real" where
  "fix_to_double c = real_of_int c / real_of_int coordinate_precision"

definition valid :: "Location \<Rightarrow> bool" where
  "valid l \<longleftrightarrow>
     m_x l \<ge> - 180 * coordinate_precision \<and> m_x l \<le> 180 * coordinate_precision \<and>
     m_y l \<ge> - 90 * coordinate_precision \<and> m_y l \<le> 90 * coordinate_precision"

definition lon :: "Location \<Rightarrow> error + real" where
  "lon l = (if \<not> valid l then Inl (invalid_location ''invalid location'')
            else Inr (fix_to_double (m_x l)))"

definition lon_without_check :: "Location \<Rightarrow> real" where
  "lon_without_check l = fix_to_double (m_x l)"

definition lat :: "Location \<Rightarrow> error + real" where
  "lat l = (if \<not> valid l then Inl (invalid_location ''invalid location'')
            else Inr (fix_to_double (m_y l)))"

definition lat_without_check :: "Location \<Rightarrow> real" where
  "lat_without_check l = fix_to_double (m_y l)"

text \<open>
  \<open>set_lon(const char*)\<close> and \<open>set_lat(const char*)\<close> change the object and may throw.
  The model returns the exception thrown, if any, together with the object as the call
  leaves it.
\<close>

definition set_lon :: "string \<Rightarrow> Location \<Rightarrow> error option \<times> Location" where
  "set_lon str l =
     (case string_to_location_coordinate str of
        Inl e \<Rightarrow> (Some e, l)
      | Inr (v, data) \<Rightarrow>
          (let l' = l\<lparr>m_x := v\<rparr>
           in if peek data \<noteq> NUL then (Some (characters_after data), l') else (None, l')))"

definition set_lat :: "string \<Rightarrow> Location \<Rightarrow> error option \<times> Location" where
  "set_lat str l =
     (case string_to_location_coordinate str of
        Inl e \<Rightarrow> (Some e, l)
      | Inr (v, data) \<Rightarrow>
          (let l' = l\<lparr>m_y := v\<rparr>
           in if peek data \<noteq> NUL then (Some (characters_after data), l') else (None, l')))"

text \<open>\<open>operator<\<close> on two Locations.\<close>

definition location_less :: "Location \<Rightarrow> Location \<Rightarrow> bool" where
  "location_less lhs rhs \<longleftrightarrow> (m_x lhs = m_x rhs \<and> m_y lhs < m_y rhs) \<or> m_x lhs < m_x rhs"

section \<open>\<open>detail::str_to_int\<close>\<close>

text \<open>The integer types the template is used with, and \<open>std::numeric_limits<T>::max()\<close>.\<close>

datatype int_type = Int8 | UInt8 | Int16 | UInt16 | Int32 | UInt32 | Int64 | UInt64

fun numeric_limits_max :: "int_type \<Rightarrow> int" where
  "numeric_limits_max Int8 = 127"
| "numeric_limits_max UInt8 = 255"
| "numeric_limits_max Int16 = 32767"
| "numeric_limits_max UInt16 = 65535"
| "numeric_limits_max Int32 = 2147483647"
| "numeric_limits_max UInt32 = 4294967295"
| "numeric_limits_max Int64 = 9223372036854775807"
| "numeric_limits_max UInt64 = 18446744073709551615"

definition llong_max :: int where
  "llong_max = 9223372036854775807"

definition llong_min :: int where
  "llong_min = - 9223372036854775808"

text \<open>\<open>get_max_int<T>()\<close> with its specialisation for \<open>uint64_t\<close>.\<close>

fun get_max_int :: "int_type \<Rightarrow> int" where
  "get_max_int UInt64 = llong_max"
| "get_max_int T = numeric_limits_max T"

text \<open>
  \<open>std::strtoll(str, &end, 10)\<close> belongs to the C library. Its outcome is the value of
  \<open>errno\<close> after the call (the caller has set it to 0), the value returned and the
  string at \<open>end\<close>.
\<close>

record strtoll_result =
  errno :: int
  parsed :: int
  endp :: string

text \<open>What \<open>str_to_int<T>\<close> makes of the outcome of \<open>strtoll\<close> (lines 84 to 88).\<close>

definition str_to_int_of :: "int_type \<Rightarrow> strtoll_result \<Rightarrow> int" where
  "str_to_int_of T r =
     (if errno r \<noteq> 0 \<or> parsed r < 0 \<or> parsed r \<ge> get_max_int T \<or> peek (endp r) \<noteq> NUL
      then 0 else parsed r)"

text \<open>
  \<open>strtoll\<close> in base 10 as ISO C describes it: white space is skipped, a sign is
  optional, the longest run of digits is converted; without a digit nothing is
  consumed and 0 is returned; a value out of the range of \<open>long long\<close> is replaced
  by the nearest bound and \<open>errno\<close> is \<open>ERANGE\<close>.
\<close>

definition isspace :: "char \<Rightarrow> bool" where
  "isspace c \<longleftrightarrow> c \<in> set [CHR '' '', CHR 0x09, CHR 0x0A, CHR 0x0B, CHR 0x0C, CHR 0x0D]"

definition ERANGE :: int where
  "ERANGE = 34"

fun decimal :: "string \<Rightarrow> int \<Rightarrow> int" where
  "decimal [] acc = acc"
| "decimal (c # cs) acc = decimal cs (acc * 10 + digit_val c)"

definition strtoll :: "string \<Rightarrow> strtoll_result" where
  "strtoll str =
     (let s0 = dropWhile isspace str;
          (negative, s1) =
            (if peek s0 = CHR ''-'' then (True, tl s0)
             else if peek s0 = CHR ''+'' then (False, tl s0) else (False, s0))
      in if \<not> is_digit (peek s1) then \<lparr>errno = 0, parsed = 0, endp = str\<rparr>
         else
           (let n = decimal (takeWhile is_digit s1) 0;
                v = (if negative then - n else n);
                rest = dropWhile is_digit s1
            in if v > llong_max then \<lparr>errno = ERANGE, parsed = llong_max, endp = rest\<rparr>
               else if v < llong_min then \<lparr>errno = ERANGE, parsed = llong_min, endp = rest\<rparr>
               else \<lparr>errno = 0, parsed = v, endp = rest\<rparr>))"

definition str_to_int :: "int_type \<Rightarrow> string \<Rightarrow> int" where
  "str_to_int T str = str_to_int_of T (strtoll str)"

section \<open>Properties\<close>

lemma peek_Cons: "peek (c # cs) = c"
  by (simp add: peek_def)

lemma peek_Nil: "peek [] = NUL"
  by (simp add: peek_def)

text \<open>
  Claim C3. The parser returns 50000000 for \<open>"5"\<close>, -1000000 for \<open>"-0.1"\<close>,
  1000000000 for \<open>"1e2"\<close>, -1 for \<open>"-0.0000001"\<close> and 0 for \<open>"0"\<close> (the same 0 as
  for \<open>"-0"\<close>: the result is an integer), and the cursor is left just behind the
  literal: at the terminator when the literal is the whole string, at the first
  character that does not belong to it otherwise.
\<close>

theorem parse_examples:
  "string_to_location_coordinate ''5'' = Inr (50000000, [])
   \<and> string_to_location_coordinate ''-0.1'' = Inr (- 1000000, [])
   \<and> string_to_location_coordinate ''1e2'' = Inr (1000000000, [])
   \<and> string_to_location_coordinate ''-0.0000001'' = Inr (- 1, [])
   \<and> string_to_location_coordinate ''0'' = Inr (0, [])
   \<and> string_to_location_coordinate ''-0'' = Inr (0, [])
   \<and> string_to_location_coordinate ''5,-0.1'' = Inr (50000000, '',-0.1'')
   \<and> string_to_location_coordinate ''1e2 0'' = Inr (1000000000, '' 0'')"
  by code_simp

text \<open>
  Claim C4. \<open>"1.23456785"\<close> and \<open>"1.2345679"\<close> both parse, to the same coordinate
  12345679: the eighth digit of the fraction rounds half up into the seventh.
\<close>

theorem parse_rounding:
  "string_to_location_coordinate ''1.23456785'' = Inr (12345679, [])
   \<and> string_to_location_coordinate ''1.2345679'' = Inr (12345679, [])
   \<and> string_to_location_coordinate ''1.23456785'' = string_to_location_coordinate ''1.2345679''"
  by code_simp

text \<open>
  Claim C6. \<open>"5e-2"\<close> parses, to the coordinate that \<open>"0.05"\<close> parses to.
\<close>

theorem parse_exponent:
  "string_to_location_coordinate ''5e-2'' = Inr (500000, [])
   \<and> string_to_location_coordinate ''0.05'' = Inr (500000, [])
   \<and> string_to_location_coordinate ''5e-2'' = string_to_location_coordinate ''0.05''"
  by code_simp

text \<open>
  Claim C7. With \<open>y\<close> in the range of latitudes, the Location with
  \<open>x = 1800000000\<close> is valid and the one with \<open>x = 1800000001\<close> is not; \<open>lon()\<close>
  throws \<open>invalid_location\<close> exactly when \<open>valid()\<close> is false and returns
  \<open>x / 10000000\<close> otherwise; \<open>lon_without_check()\<close> returns \<open>x / 10000000\<close> on
  every Location.
\<close>

theorem lon_validity:
  assumes "- 900000000 \<le> y" and "y \<le> 900000000"
  shows "valid \<lparr>m_x = 1800000000, m_y = y\<rparr>
    \<and> \<not> valid \<lparr>m_x = 1800000001, m_y = y\<rparr>
    \<and> ((\<exists>e. lon l = Inl e) \<longleftrightarrow> \<not> valid l)
    \<and> (\<not> valid l \<longrightarrow> lon l = Inl (invalid_location ''invalid location''))
    \<and> (valid l \<longrightarrow> lon l = Inr (real_of_int (m_x l) / 10000000))
    \<and> lon_without_check l = real_of_int (m_x l) / 10000000"
  using assms
  by (simp add: valid_def lon_def lon_without_check_def fix_to_double_def
      coordinate_precision_def)

theorem lon_validity_witness:
  "valid \<lparr>m_x = 1800000000, m_y = 0\<rparr>
   \<and> \<not> valid \<lparr>m_x = 1800000001, m_y = 0\<rparr>
   \<and> lon \<lparr>m_x = 1800000001, m_y = 0\<rparr> = Inl (invalid_location ''invalid location'')
   \<and> lon \<lparr>m_x = 1800000000, m_y = 0\<rparr> = Inr 180
   \<and> lon_without_check \<lparr>m_x = 1800000001, m_y = 0\<rparr> = 1800000001 / 10000000"
proof -
  have y: "- 900000000 \<le> (0::int)" "(0::int) \<le> 900000000" by simp_all
  note a = lon_validity [OF y, of "\<lparr>m_x = 1800000001, m_y = 0\<rparr>"]
  note b = lon_validity [OF y, of "\<lparr>m_x = 1800000000, m_y = 0\<rparr>"]
  from a b show ?thesis by simp
qed

text \<open>
  Claim C8. \<open>a < b\<close> holds if and only if \<open>a.x() < b.x()\<close>, or \<open>a.x() == b.x()\<close> and
  \<open>a.y() < b.y()\<close>; \<open>Location(1,5) < Location(1,6)\<close>, \<open>Location(1,6) < Location(2,0)\<close>,
  and \<open>Location(1,6) < Location(1,5)\<close> is false.
\<close>

theorem location_less_lexicographic:
  "(location_less a b \<longleftrightarrow> m_x a < m_x b \<or> (m_x a = m_x b \<and> m_y a < m_y b))
   \<and> location_less \<lparr>m_x = 1, m_y = 5\<rparr> \<lparr>m_x = 1, m_y = 6\<rparr>
   \<and> location_less \<lparr>m_x = 1, m_y = 6\<rparr> \<lparr>m_x = 2, m_y = 0\<rparr>
   \<and> \<not> location_less \<lparr>m_x = 1, m_y = 6\<rparr> \<lparr>m_x = 1, m_y = 5\<rparr>"
  by (auto simp: location_less_def)

text \<open>
  Claim C9 says that a call of \<open>set_lon(const char*)\<close> or \<open>set_lat(const char*)\<close>
  that fails leaves both axes as they were. \<open>set_lon("1x")\<close> on \<open>Location(0,0)\<close> throws
  for the trailing \<open>x\<close>, and \<open>m_x\<close> is 10000000 afterwards: the axis is assigned before
  the rest of the string is looked at.
\<close>

theorem set_lon_trailing_counterexample:
  "fst (set_lon ''1x'' \<lparr>m_x = 0, m_y = 0\<rparr>) = Some (characters_after ''x'')
   \<and> m_x (snd (set_lon ''1x'' \<lparr>m_x = 0, m_y = 0\<rparr>)) = 10000000
   \<and> m_x (snd (set_lon ''1x'' \<lparr>m_x = 0, m_y = 0\<rparr>)) \<noteq> m_x \<lparr>m_x = 0, m_y = 0\<rparr>"
proof -
  have "string_to_location_coordinate ''1x'' = Inr (10000000, ''x'')"
    by code_simp
  then show ?thesis
    by (simp add: set_lon_def peek_def NUL_def)
qed

text \<open>
  Claim C9, amended. When the parser throws (malformed literal, or a value out of the
  32-bit range), \<open>set_lon\<close> and \<open>set_lat\<close> pass the exception on and both axes are as
  before the call. When the parser succeeds and characters follow the literal, the
  call throws with the parsed value already stored in the axis it sets. In every case
  the other axis is unchanged.
\<close>

theorem set_lon_set_lat_failure:
  "(string_to_location_coordinate str = Inl e \<longrightarrow>
      set_lon str l = (Some e, l) \<and> set_lat str l = (Some e, l))
   \<and> (string_to_location_coordinate str = Inr (v, data) \<and> peek data \<noteq> NUL \<longrightarrow>
      set_lon str l = (Some (characters_after data), l\<lparr>m_x := v\<rparr>)
      \<and> set_lat str l = (Some (characters_after data), l\<lparr>m_y := v\<rparr>))
   \<and> (string_to_location_coordinate str = Inr (v, data) \<and> peek data = NUL \<longrightarrow>
      set_lon str l = (None, l\<lparr>m_x := v\<rparr>) \<and> set_lat str l = (None, l\<lparr>m_y := v\<rparr>))
   \<and> m_y (snd (set_lon str l)) = m_y l
   \<and> m_x (snd (set_lat str l)) = m_x l"
  by (auto simp: set_lon_def set_lat_def Let_def split: sum.splits prod.splits)

theorem set_lon_set_lat_failure_witness:
  "set_lon ''x'' \<lparr>m_x = 3, m_y = 4\<rparr> = (Some (wrong_format ''x''), \<lparr>m_x = 3, m_y = 4\<rparr>)
   \<and> set_lat ''99999999999'' \<lparr>m_x = 3, m_y = 4\<rparr>
       = (Some (wrong_format ''99999999999''), \<lparr>m_x = 3, m_y = 4\<rparr>)
   \<and> set_lon ''1x'' \<lparr>m_x = 3, m_y = 4\<rparr>
       = (Some (characters_after ''x''), \<lparr>m_x = 10000000, m_y = 4\<rparr>)
   \<and> set_lat ''1x'' \<lparr>m_x = 3, m_y = 4\<rparr>
       = (Some (characters_after ''x''), \<lparr>m_x = 3, m_y = 10000000\<rparr>)
   \<and> set_lon ''1'' \<lparr>m_x = 3, m_y = 4\<rparr> = (None, \<lparr>m_x = 10000000, m_y = 4\<rparr>)
   \<and> set_lon ''300'' \<lparr>m_x = 3, m_y = 4\<rparr> = (Some (wrong_format ''300''), \<lparr>m_x = 3, m_y = 4\<rparr>)"
proof -
  have p5: "string_to_location_coordinate ''300'' = Inl (wrong_format ''300'')"
    by code_simp
  note e = set_lon_set_lat_failure [of "''300''" "wrong_format ''300''" "\<lparr>m_x = 3, m_y = 4\<rparr>"]
  have p1: "string_to_location_coordinate ''x'' = Inl (wrong_format ''x'')"
    by code_simp
  have p2: "string_to_location_coordinate ''99999999999'' = Inl (wrong_format ''99999999999'')"
    by code_simp
  have p3: "string_to_location_coordinate ''1x'' = Inr (10000000, ''x'')"
    by code_simp
  have p4: "string_to_location_coordinate ''1'' = Inr (10000000, [])"
    by code_simp
  have n3: "peek ''x'' \<noteq> NUL" by (simp add: peek_def NUL_def)
  have n4: "peek [] = NUL" by (simp add: peek_def)
  note a = set_lon_set_lat_failure [of "''x''" "wrong_format ''x''" "\<lparr>m_x = 3, m_y = 4\<rparr>"]
  note b = set_lon_set_lat_failure [of "''99999999999''" "wrong_format ''99999999999''"
      "\<lparr>m_x = 3, m_y = 4\<rparr>"]
  note c = set_lon_set_lat_failure [of "''1x''" _ "\<lparr>m_x = 3, m_y = 4\<rparr>" 10000000 "''x''"]
  note d = set_lon_set_lat_failure [of "''1''" _ "\<lparr>m_x = 3, m_y = 4\<rparr>" 10000000 "[]"]
  from a b c d e p1 p2 p3 p4 p5 n3 n4 show ?thesis by simp
qed

text \<open>
  Claim C10. \<open>str_to_int<T>\<close> returns the number \<open>strtoll\<close> parsed when \<open>errno\<close> is 0,
  nothing follows the number, and the number is at least 0 and strictly below
  \<open>get_max_int<T>()\<close>; otherwise it returns 0. The string that spells
  \<open>get_max_int<T>()\<close> or the largest value of \<open>T\<close> gives 0; one less than the largest
  \<open>int32_t\<close> is returned as it is.
\<close>

theorem str_to_int_result:
  "str_to_int T str =
     (let r = strtoll str
      in if errno r = 0 \<and> 0 \<le> parsed r \<and> parsed r < get_max_int T \<and> peek (endp r) = NUL
         then parsed r else 0)
   \<and> str_to_int_of T r =
     (if errno r = 0 \<and> 0 \<le> parsed r \<and> parsed r < get_max_int T \<and> peek (endp r) = NUL
      then parsed r else 0)
   \<and> str_to_int_of T (r\<lparr>parsed := get_max_int T\<rparr>) = 0
   \<and> str_to_int Int8 ''127'' = 0
   \<and> str_to_int UInt8 ''255'' = 0
   \<and> str_to_int Int16 ''32767'' = 0
   \<and> str_to_int UInt16 ''65535'' = 0
   \<and> str_to_int Int32 ''2147483647'' = 0
   \<and> str_to_int UInt32 ''4294967295'' = 0
   \<and> str_to_int Int64 ''9223372036854775807'' = 0
   \<and> str_to_int UInt64 ''18446744073709551615'' = 0
   \<and> str_to_int UInt64 ''9223372036854775807'' = 0
   \<and> str_to_int Int32 ''2147483646'' = 2147483646"
proof -
  have a: "str_to_int_of T r =
     (if errno r = 0 \<and> 0 \<le> parsed r \<and> parsed r < get_max_int T \<and> peek (endp r) = NUL
      then parsed r else 0)" for r
    by (auto simp: str_to_int_of_def)
  have b: "str_to_int_of T (r\<lparr>parsed := get_max_int T\<rparr>) = 0"
    by (simp add: str_to_int_of_def)
  have c: "str_to_int Int8 ''127'' = 0" "str_to_int UInt8 ''255'' = 0"
    "str_to_int Int16 ''32767'' = 0" "str_to_int UInt16 ''65535'' = 0"
    "str_to_int Int32 ''2147483647'' = 0" "str_to_int UInt32 ''4294967295'' = 0"
    "str_to_int Int64 ''9223372036854775807'' = 0"
    "str_to_int UInt64 ''18446744073709551615'' = 0"
    "str_to_int UInt64 ''9223372036854775807'' = 0"
    "str_to_int Int32 ''2147483646'' = 2147483646"
    by code_simp+
  from a b c show ?thesis
    by (simp add: str_to_int_def Let_def)
qed

theorem str_to_int_result_witness:
  "str_to_int UInt8 ''42'' = 42
   \<and> str_to_int UInt8 ''42x'' = 0
   \<and> str_to_int UInt8 ''-42'' = 0
   \<and> str_to_int_of UInt8 \<lparr>errno = 0, parsed = 254, endp = []\<rparr> = 254
   \<and> str_to_int_of UInt8 \<lparr>errno = 0, parsed = 255, endp = []\<rparr> = 0"
proof -
  have s: "strtoll ''42'' = \<lparr>errno = 0, parsed = 42, endp = []\<rparr>"
    "strtoll ''42x'' = \<lparr>errno = 0, parsed = 42, endp = ''x''\<rparr>"
    "strtoll ''-42'' = \<lparr>errno = 0, parsed = - 42, endp = []\<rparr>"
    by code_simp+
  note a = str_to_int_result [of UInt8 "''42''" "\<lparr>errno = 0, parsed = 254, endp = []\<rparr>"]
  note b = str_to_int_result [of UInt8 "''42x''" "\<lparr>errno = 0, parsed = 255, endp = []\<rparr>"]
  note c = str_to_int_result [of UInt8 "''-42''" "\<lparr>errno = 0, parsed = 255, endp = []\<rparr>"]
  from a b c show ?thesis
    by (simp add: s peek_def NUL_def)
qed

text \<open>
  Claim C2 at the least \<open>int32_t\<close>. The negation \<open>value = -value\<close> overflows there;
  with wrap-around the value stays negative, the remainders are negative and the
  characters written are not digits. The output has a decimal point and ends in \<open>(\<close>.
\<close>

theorem format_int32_min:
  "append_location_coordinate_to_string [] (- 2147483648) = ''-0../,),(-*,(''
   \<and> last (append_location_coordinate_to_string [] (- 2147483648)) = CHR ''(''
   \<and> \<not> is_digit (last (append_location_coordinate_to_string [] (- 2147483648)))"
  by code_simp

lemma read_digits_zero: "snd (snd (read_digits s acc 0)) = 0"
  by (cases s) simp_all

lemma read_digits_exhaust:
  "\<forall>c\<in>set ds. is_digit c \<Longrightarrow> n \<le> int (length ds) \<Longrightarrow> 0 \<le> n \<Longrightarrow>
   snd (snd (read_digits (ds @ rest) acc n)) = 0"
proof (induction ds arbitrary: acc n)
  case Nil
  then show ?case by (simp add: read_digits_zero)
next
  case (Cons d ds)
  show ?case
  proof (cases "n > 0")
    case True
    with Cons.prems have "snd (snd (read_digits (ds @ rest) (s64 (acc * 10 + digit_val d)) (n - 1))) = 0"
      by (intro Cons.IH) auto
    with True Cons.prems show ?thesis by simp
  next
    case False
    with Cons.prems show ?thesis by simp
  qed
qed

lemma integer_part_too_long:
  assumes "\<forall>c\<in>set ds. is_digit c" and "11 \<le> length ds"
  shows "integer_part (ds @ rest) = None"
proof -
  from assms(2) obtain d ds' where ds: "ds = d # ds'" and len: "10 \<le> length ds'"
    by (cases ds) auto
  from assms(1) ds have d: "is_digit d" and ds': "\<forall>c\<in>set ds'. is_digit c" by auto
  from d have nd: "d \<noteq> CHR ''.''" by (auto simp: is_digit_def)
  have "snd (snd (read_digits (ds' @ rest) (digit_val d) 10)) = 0"
    using ds' len by (intro read_digits_exhaust) auto
  with d nd show ?thesis
    by (auto simp: integer_part_def ds peek_def split: prod.splits)
qed

text \<open>
  Claim C5. A string that starts, after an optional minus sign, with eleven or more
  digits is rejected with the malformed-coordinate \<open>invalid_location\<close>, whatever
  follows the digits (a fraction, an exponent that would bring the value back into range).
\<close>

theorem eleven_integer_digits_rejected:
  assumes "\<forall>c\<in>set ds. is_digit c" and "11 \<le> length ds"
  shows "string_to_location_coordinate (ds @ rest) = Inl (wrong_format (ds @ rest))
    \<and> string_to_location_coordinate (''-'' @ ds @ rest) = Inl (wrong_format (''-'' @ ds @ rest))"
proof -
  from assms(2) obtain d ds' where ds: "ds = d # ds'" by (cases ds) auto
  with assms(1) have "is_digit d" by simp
  then have nm: "d \<noteq> CHR ''-''" by (auto simp: is_digit_def)
  have ip: "integer_part (ds @ rest) = None"
    using assms by (rule integer_part_too_long)
  have "string_to_location_coordinate (ds @ rest) = Inl (wrong_format (ds @ rest))"
    using nm ip unfolding string_to_location_coordinate_def
    by (simp add: ds peek_def)
  moreover have "string_to_location_coordinate (''-'' @ ds @ rest)
      = Inl (wrong_format (''-'' @ ds @ rest))"
    using ip unfolding string_to_location_coordinate_def
    by (simp add: peek_def)
  ultimately show ?thesis by simp
qed

theorem eleven_integer_digits_rejected_witness:
  "string_to_location_coordinate ''99999999999'' = Inl (wrong_format ''99999999999'')
   \<and> string_to_location_coordinate ''10000000000e-10'' = Inl (wrong_format ''10000000000e-10'')
   \<and> string_to_location_coordinate ''-10000000000.5'' = Inl (wrong_format ''-10000000000.5'')
   \<and> string_to_location_coordinate ''1000000000e-9'' = Inr (10000000, [])"
proof -
  have d1: "\<forall>c\<in>set ''99999999999''. is_digit c" by (simp add: is_digit_def)
  have d2: "\<forall>c\<in>set ''10000000000''. is_digit c" by (simp add: is_digit_def)
  have l1: "11 \<le> length ''99999999999''" by simp
  have l2: "11 \<le> length ''10000000000''" by simp
  note a = eleven_integer_digits_rejected [OF d1 l1, of "[]"]
  note b = eleven_integer_digits_rejected [OF d2 l2, of "''e-10''"]
  note c = eleven_integer_digits_rejected [OF d2 l2, of "''.5''"]
  have e: "string_to_location_coordinate ''1000000000e-9'' = Inr (10000000, [])"
    by code_simp
  from a b c e show ?thesis by simp
qed

subsection \<open>Decimal digits\<close>

declare write_digits.simps [simp del] pad_zeros.simps [simp del] skip_zeros.simps [simp del]
  scale_up.simps [simp del] scale_down.simps [simp del]

lemma s64_id: "- (2 ^ 63) \<le> k \<Longrightarrow> k < 2 ^ 63 \<Longrightarrow> s64 k = k"
  by (simp add: s64_def)

lemma s32_id: "- (2 ^ 31) \<le> k \<Longrightarrow> k < 2 ^ 31 \<Longrightarrow> s32 k = k"
  by (simp add: s32_def)

lemma digit_val_range: "is_digit c \<Longrightarrow> 0 \<le> digit_val c \<and> digit_val c \<le> 9"
  by (auto simp: is_digit_def digit_val_def)

lemma digit_char:
  assumes "0 \<le> d" and "d \<le> 9"
  shows "is_digit (char_of (d + 48 :: int))" and "digit_val (char_of (d + 48 :: int)) = d"
proof -
  have "(of_char (char_of (d + 48)) :: int) = (d + 48) mod 256"
    by (rule of_char_of)
  with assms have i: "(of_char (char_of (d + 48)) :: int) = d + 48" by simp
  have n: "int (of_char (char_of (d + 48)) :: nat) = d + 48"
    by (simp only: of_nat_of_char i)
  from n assms show "is_digit (char_of (d + 48 :: int))"
    unfolding is_digit_def by linarith
  from n show "digit_val (char_of (d + 48 :: int)) = d"
    by (simp add: digit_val_def)
qed

lemma decimal_append: "decimal (xs @ ys) acc = decimal ys (decimal xs acc)"
  by (induction xs arbitrary: acc) auto

lemma decimal_shift: "decimal ds acc = acc * 10 ^ length ds + decimal ds 0"
proof (induction ds arbitrary: acc)
  case Nil
  show ?case by simp
next
  case (Cons d ds)
  have a: "decimal (d # ds) acc = (acc * 10 + digit_val d) * 10 ^ length ds + decimal ds 0"
    using Cons.IH [of "acc * 10 + digit_val d"] by simp
  have b: "decimal (d # ds) 0 = digit_val d * 10 ^ length ds + decimal ds 0"
    using Cons.IH [of "digit_val d"] by simp
  show ?case
    unfolding a b by (simp add: algebra_simps)
qed

lemma decimal_bounds:
  "\<forall>c\<in>set ds. is_digit c \<Longrightarrow> 0 \<le> decimal ds 0 \<and> decimal ds 0 < 10 ^ length ds"
proof (induction ds rule: rev_induct)
  case Nil
  show ?case by simp
next
  case (snoc d ds)
  then have ih: "0 \<le> decimal ds 0" "decimal ds 0 < 10 ^ length ds" by auto
  from snoc.prems have "is_digit d" by simp
  then have dv: "0 \<le> digit_val d" "digit_val d \<le> 9"
    using digit_val_range by auto
  have "decimal (ds @ [d]) 0 = decimal ds 0 * 10 + digit_val d"
    by (simp add: decimal_append)
  with ih dv show ?case by simp
qed

lemma decimal_ge:
  "\<forall>c\<in>set ds. is_digit c \<Longrightarrow> 0 \<le> acc \<Longrightarrow> acc \<le> decimal ds acc"
proof (induction ds arbitrary: acc)
  case Nil
  show ?case by simp
next
  case (Cons d ds)
  from Cons.prems have "is_digit d" by simp
  then have dv: "0 \<le> digit_val d" using digit_val_range by auto
  with Cons.prems have "acc * 10 + digit_val d \<le> decimal ds (acc * 10 + digit_val d)"
    by (intro Cons.IH) auto
  with dv Cons.prems show ?case by simp
qed

lemma decimal_zeros: "decimal (replicate n (CHR ''0'')) 0 = 0"
  by (induction n) (simp_all add: digit_val_def)

lemma read_digits_stop: "\<not> is_digit (peek rest) \<Longrightarrow> read_digits rest acc n = (rest, acc, n)"
  by (cases rest) (simp_all add: peek_def)

lemma read_digits_all:
  "\<forall>c\<in>set ds. is_digit c \<Longrightarrow> \<not> is_digit (peek rest) \<Longrightarrow> int (length ds) \<le> n \<Longrightarrow>
   0 \<le> acc \<Longrightarrow> decimal ds acc < 2 ^ 63 \<Longrightarrow>
   read_digits (ds @ rest) acc n = (rest, decimal ds acc, n - int (length ds))"
proof (induction ds arbitrary: acc n)
  case Nil
  then show ?case by (simp add: read_digits_stop)
next
  case (Cons d ds)
  from Cons.prems have d: "is_digit d" and ds: "\<forall>c\<in>set ds. is_digit c" by auto
  from d have dv: "0 \<le> digit_val d" using digit_val_range by auto
  let ?a = "acc * 10 + digit_val d"
  have a0: "0 \<le> ?a" using dv Cons.prems by simp
  have "?a \<le> decimal ds ?a" using ds a0 by (rule decimal_ge)
  with Cons.prems have a1: "?a < 2 ^ 63" by simp
  have s: "s64 ?a = ?a" using a0 a1 by (intro s64_id) auto
  have "read_digits (ds @ rest) ?a (n - 1) = (rest, decimal ds ?a, n - 1 - int (length ds))"
    using ds Cons.prems a0 by (intro Cons.IH) auto
  with d s Cons.prems show ?case by simp
qed

lemma scale_up_pow:
  "0 \<le> scale \<Longrightarrow> 0 \<le> result \<Longrightarrow> result * 10 ^ nat scale < 2 ^ 63 \<Longrightarrow>
   scale_up result scale = result * 10 ^ nat scale"
proof (induction result scale rule: scale_up.induct)
  case (1 result scale)
  show ?case
  proof (cases "scale > 0")
    case False
    with "1.prems" show ?thesis by (subst scale_up.simps) simp
  next
    case True
    then have n: "nat scale = Suc (nat (scale - 1))" by simp
    have p: "result * 10 ^ nat scale = result * 10 * 10 ^ nat (scale - 1)"
      unfolding n by simp
    have "(1::int) \<le> 10 ^ nat (scale - 1)" by simp
    then have "result * 10 * 1 \<le> result * 10 * 10 ^ nat (scale - 1)"
      using "1.prems"(2) by (intro mult_left_mono) auto
    with "1.prems" p have r: "result * 10 < 2 ^ 63" by simp
    have s: "s64 (result * 10) = result * 10"
      using r "1.prems"(2) by (intro s64_id) auto
    have "scale_up (s64 (result * 10)) (scale - 1) = s64 (result * 10) * 10 ^ nat (scale - 1)"
      using True "1.prems" p s by (intro "1.IH") auto
    then have ih: "scale_up (result * 10) (scale - 1) = result * 10 * 10 ^ nat (scale - 1)"
      by (simp only: s)
    have u: "scale_up result scale = scale_up (s64 (result * 10)) (scale - 1)"
      using True by (subst scale_up.simps) simp
    show ?thesis by (simp only: u s ih p)
  qed
qed

lemma sdiv_nonneg: "0 \<le> v \<Longrightarrow> v sdiv 10 = v div (10::int)"
  by (simp add: signed_divide_int_def sgn_if)

lemma smod_nonneg: "0 \<le> v \<Longrightarrow> v smod 10 = v mod (10::int)"
  by (simp add: signed_modulo_int_def sgn_if)

lemma write_digits_nonneg:
  "0 \<le> v \<Longrightarrow> write_digits v =
     (if v div 10 \<noteq> 0 then char_of (v mod 10 + 48) # write_digits (v div 10)
      else [char_of (v mod 10 + 48)])"
  by (subst write_digits.simps) (simp add: sdiv_nonneg smod_nonneg Let_def)

lemma write_digits_not_Nil: "write_digits v \<noteq> []"
  by (subst write_digits.simps) (simp add: Let_def)

lemma write_digits_is_digit: "0 \<le> v \<Longrightarrow> \<forall>c\<in>set (write_digits v). is_digit c"
proof (induction v rule: write_digits.induct)
  case (1 v)
  have d: "is_digit (char_of (v mod 10 + 48))"
    by (rule digit_char) auto
  show ?case
  proof (cases "v div 10 = 0")
    case True
    with d "1.prems" show ?thesis by (subst write_digits_nonneg) auto
  next
    case False
    have "\<forall>c\<in>set (write_digits (v div 10)). is_digit c"
      using "1.prems" False by (intro "1.IH" [of _ "v div 10"]) (auto simp: sdiv_nonneg)
    with d False "1.prems" show ?thesis by (subst write_digits_nonneg) auto
  qed
qed

lemma write_digits_decimal: "0 \<le> v \<Longrightarrow> decimal (rev (write_digits v)) 0 = v"
proof (induction v rule: write_digits.induct)
  case (1 v)
  have d: "digit_val (char_of (v mod 10 + 48)) = v mod 10"
    by (rule digit_char) auto
  show ?case
  proof (cases "v div 10 = 0")
    case True
    then have "v mod 10 = v" using "1.prems" by (simp add: div_eq_0_iff mod_pos_pos_trivial)
    with d True "1.prems" show ?thesis by (subst write_digits_nonneg) auto
  next
    case False
    have "decimal (rev (write_digits (v div 10))) 0 = v div 10"
      using "1.prems" False by (intro "1.IH" [of _ "v div 10"]) (auto simp: sdiv_nonneg)
    with d False "1.prems" show ?thesis
      by (subst write_digits_nonneg) (auto simp: decimal_append)
  qed
qed

lemma write_digits_length:
  "0 \<le> v \<Longrightarrow> length (write_digits v) \<le> Suc n \<longleftrightarrow> v < 10 ^ Suc n"
proof (induction n arbitrary: v)
  case 0
  then show ?case
    by (subst write_digits_nonneg) (auto simp: div_eq_0_iff write_digits_not_Nil)
next
  case (Suc n)
  show ?case
  proof (cases "v div 10 = 0")
    case True
    then have "v < 10" using Suc.prems by (simp add: div_eq_0_iff)
    also have "(10::int) \<le> 10 ^ Suc (Suc n)"
      using power_increasing [of 1 "Suc (Suc n)" "10::int"] by simp
    finally have "v < 10 ^ Suc (Suc n)" .
    with True Suc.prems show ?thesis by (subst write_digits_nonneg) auto
  next
    case False
    have ih: "length (write_digits (v div 10)) \<le> Suc n \<longleftrightarrow> v div 10 < 10 ^ Suc n"
      using Suc.prems by (intro Suc.IH) auto
    have "v div 10 < p \<longleftrightarrow> v < 10 * p" for p :: int
      by presburger
    then have "v div 10 < 10 ^ Suc n \<longleftrightarrow> v < 10 ^ Suc (Suc n)"
      by simp
    with ih False Suc.prems show ?thesis by (subst write_digits_nonneg) auto
  qed
qed

lemma pad_zeros_eq: "pad_zeros temp = temp @ replicate (7 - length temp) (CHR ''0'')"
proof (induction temp rule: pad_zeros.induct)
  case (1 temp)
  show ?case
  proof (cases "length temp < 7")
    case True
    then have "7 - length temp = Suc (7 - length (temp @ ''0''))" by simp
    with True "1.IH" show ?thesis
      by (subst pad_zeros.simps) (simp add: replicate_app_Cons_same)
  next
    case False
    then show ?thesis by (subst pad_zeros.simps) simp
  qed
qed

subsection \<open>What the formatter writes\<close>

lemma skip_zeros_eq:
  "tn \<le> t \<Longrightarrow> t \<le> length temp \<Longrightarrow>
   skip_zeros temp t tn = tn + length (takeWhile (\<lambda>c. c = CHR ''0'') (drop tn (take t temp)))"
proof (induction temp t tn rule: skip_zeros.induct)
  case (1 temp t tn)
  show ?case
  proof (cases "tn < t")
    case False
    with "1.prems" show ?thesis by (subst skip_zeros.simps) simp
  next
    case True
    with "1.prems" have d: "drop tn (take t temp) = temp ! tn # drop (Suc tn) (take t temp)"
      by (simp add: Cons_nth_drop_Suc [symmetric])
    show ?thesis
    proof (cases "temp ! tn = CHR ''0''")
      case False
      with True d show ?thesis by (subst skip_zeros.simps) simp
    next
      case z: True
      have "skip_zeros temp t (tn + 1)
          = tn + 1 + length (takeWhile (\<lambda>c. c = CHR ''0'') (drop (tn + 1) (take t temp)))"
        using True z "1.prems" by (intro "1.IH") auto
      with True z d show ?thesis by (subst skip_zeros.simps) simp
    qed
  qed
qed

lemma write_fraction_eq:
  "tn \<le> t \<Longrightarrow> t \<le> length temp \<Longrightarrow> write_fraction temp t tn = rev (drop tn (take t temp))"
proof (induction t)
  case 0
  then show ?case by simp
next
  case (Suc t)
  show ?case
  proof (cases "Suc t = tn")
    case True
    have "write_fraction temp (Suc t) (Suc t) = []" by simp
    with Suc.prems show ?thesis unfolding True [symmetric] by simp
  next
    case False
    with Suc.prems have le: "tn \<le> t" by simp
    from Suc.prems have tk: "take (Suc t) temp = take t temp @ [temp ! t]"
      by (simp add: take_Suc_conv_app_nth)
    from le Suc.prems have "write_fraction temp t tn = rev (drop tn (take t temp))"
      by (intro Suc.IH) auto
    with False le Suc.prems show ?thesis by (simp add: tk)
  qed
qed

lemma rev_drop_7:
  "length xs = 8 \<Longrightarrow> rev (drop 7 xs) = [xs ! 7]"
  "length xs = 9 \<Longrightarrow> rev (drop 7 xs) = [xs ! 8, xs ! 7]"
  "length xs = 10 \<Longrightarrow> rev (drop 7 xs) = [xs ! 9, xs ! 8, xs ! 7]"
  by (auto simp: list_eq_iff_nth_eq rev_nth nth_Cons' less_Suc_eq numeral_eq_Suc)

lemma temp_length:
  assumes "0 \<le> val"
  shows "val < 10000000 \<Longrightarrow> length (pad_zeros (write_digits val)) = 7"
    and "10000000 \<le> val \<Longrightarrow> val < 100000000 \<Longrightarrow> length (pad_zeros (write_digits val)) = 8"
    and "100000000 \<le> val \<Longrightarrow> val < 1000000000 \<Longrightarrow> length (pad_zeros (write_digits val)) = 9"
    and "1000000000 \<le> val \<Longrightarrow> val < 10000000000 \<Longrightarrow> length (pad_zeros (write_digits val)) = 10"
  using write_digits_length [OF assms, of 6] write_digits_length [OF assms, of 7]
    write_digits_length [OF assms, of 8] write_digits_length [OF assms, of 9]
  by (auto simp: pad_zeros_eq)

lemma format_nonneg:
  assumes "0 \<le> val" and "val < 2 ^ 31"
  shows "append_location_coordinate_to_string it val =
    it @ int_chars val @ (if frac_chars val = [] then [] else ''.'' @ frac_chars val)"
proof -
  let ?P = "\<lambda>c. c = CHR ''0''"
  define temp where "temp = pad_zeros (write_digits val)"
  define z where "z = length (takeWhile ?P (take 7 temp))"
  have len7: "7 \<le> length temp"
    by (simp add: temp_def pad_zeros_eq)
  have sz: "skip_zeros temp 7 0 = z"
    using skip_zeros_eq [of 0 7 temp] len7 by (simp add: z_def)
  have zle: "z \<le> 7"
    using length_takeWhile_le [of ?P "take 7 temp"] len7 by (simp add: z_def)
  have dw: "drop z (take 7 temp) = dropWhile ?P (take 7 temp)"
    unfolding z_def by (rule dropWhile_eq_drop [symmetric])
  have wfr: "write_fraction temp 7 z = frac_chars val"
    using write_fraction_eq [of z 7 temp] zle len7 dw by (simp add: frac_chars_def temp_def)
  have "length (takeWhile ?P (take 7 temp) @ dropWhile ?P (take 7 temp)) = 7"
    using len7 by (simp only: takeWhile_dropWhile_id) simp
  then have sum: "z + length (dropWhile ?P (take 7 temp)) = 7"
    by (simp only: length_append z_def)
  have fc: "frac_chars val = rev (dropWhile ?P (take 7 temp))"
    by (simp only: frac_chars_def temp_def)
  have "frac_chars val = [] \<longleftrightarrow> length (dropWhile ?P (take 7 temp)) = 0"
    unfolding fc by simp
  also have "\<dots> \<longleftrightarrow> z = 7"
    using sum by linarith
  finally have ne: "7 \<noteq> z \<longleftrightarrow> frac_chars val \<noteq> []"
    by blast
  have tail: "(if 7 \<noteq> skip_zeros temp 7 0
         then out @ ''.'' @ write_fraction temp 7 (skip_zeros temp 7 0) else out)
      = out @ (if frac_chars val = [] then [] else ''.'' @ frac_chars val)" for out
    using ne by (simp add: sz wfr)
  consider (a) "val < 10000000" | (b) "10000000 \<le> val" "val < 100000000"
    | (c) "100000000 \<le> val" "val < 1000000000" | (d) "1000000000 \<le> val"
    by linarith
  then show ?thesis
  proof cases
    case a
    then have l: "length temp = 7" using temp_length(1) assms(1) by (simp add: temp_def)
    have "append_location_coordinate_to_string it val =
        (if 7 \<noteq> skip_zeros temp 7 0
         then (it @ ''0'') @ ''.'' @ write_fraction temp 7 (skip_zeros temp 7 0) else it @ ''0'')"
      using a assms(1) l
      by (simp add: append_location_coordinate_to_string_def Let_def coordinate_precision_def
          flip: temp_def)
    with a show ?thesis by (simp only: tail) (simp add: int_chars_def)
  next
    case b
    then have l: "length temp = 8" using temp_length(2) assms(1) by (simp add: temp_def)
    have "append_location_coordinate_to_string it val =
        (if 7 \<noteq> skip_zeros temp 7 0
         then (it @ [temp ! 7]) @ ''.'' @ write_fraction temp 7 (skip_zeros temp 7 0)
         else it @ [temp ! 7])"
      using b assms(1) l
      by (simp add: append_location_coordinate_to_string_def Let_def coordinate_precision_def
          flip: temp_def)
    with b l show ?thesis
      by (simp only: tail) (simp add: int_chars_def rev_drop_7 flip: temp_def)
  next
    case c
    then have l: "length temp = 9" using temp_length(3) assms(1) by (simp add: temp_def)
    have "append_location_coordinate_to_string it val =
        (if 7 \<noteq> skip_zeros temp 7 0
         then (it @ [temp ! 8, temp ! 7]) @ ''.'' @ write_fraction temp 7 (skip_zeros temp 7 0)
         else it @ [temp ! 8, temp ! 7])"
      using c assms(1) l
      by (simp add: append_location_coordinate_to_string_def Let_def coordinate_precision_def
          flip: temp_def)
    with c l show ?thesis
      by (simp only: tail) (simp add: int_chars_def rev_drop_7 flip: temp_def)
  next
    case d
    with assms(2) have "val < 10000000000" by simp
    with d have "1000000000 \<le> val \<and> val < 10000000000" by simp
    then have l: "length temp = 10" using temp_length(4) assms(1) by (simp add: temp_def)
    have "append_location_coordinate_to_string it val =
        (if 7 \<noteq> skip_zeros temp 7 0
         then (it @ [temp ! 9, temp ! 8, temp ! 7]) @ ''.'' @ write_fraction temp 7 (skip_zeros temp 7 0)
         else it @ [temp ! 9, temp ! 8, temp ! 7])"
      using d assms(1) l
      by (simp add: append_location_coordinate_to_string_def Let_def coordinate_precision_def
          flip: temp_def)
    with d l show ?thesis
      by (simp only: tail) (simp add: int_chars_def rev_drop_7 flip: temp_def)
  qed
qed

lemma format_negative:
  assumes "- (2 ^ 31) < v" and "v < 0"
  shows "append_location_coordinate_to_string it v
    = append_location_coordinate_to_string (it @ ''-'') (- v)"
proof -
  have "s32 (- v) = - v" using assms by (intro s32_id) auto
  with assms show ?thesis
    by (simp add: append_location_coordinate_to_string_def)
qed

subsection \<open>What the parser reads from a plain decimal\<close>

lemma not_digit_NUL: "\<not> is_digit NUL"
  by (simp add: is_digit_def NUL_def)

lemma not_digit_point: "\<not> is_digit (CHR ''.'')"
  by (simp add: is_digit_def)

lemma digit_not_special: "is_digit c \<Longrightarrow> c \<noteq> CHR ''.'' \<and> c \<noteq> CHR ''-''"
  by (auto simp: is_digit_def)

lemma exponent_part_Nil: "exponent_part [] scale = Some ([], scale)"
  by (simp add: exponent_part_def peek_def NUL_def)

lemma final_rounding:
  assumes "0 \<le> val" and "val < 2 ^ 31"
  shows "s64 (s64 (10 * val + 5) sdiv 10 * 1) = val"
    and "s64 (s64 (10 * val + 5) sdiv 10 * (- 1)) = - val"
proof -
  have a: "s64 (10 * val + 5) = 10 * val + 5"
    using assms by (intro s64_id) auto
  have b: "(10 * val + 5) sdiv 10 = val"
    using assms(1) by (simp add: sdiv_nonneg)
  have c: "s64 val = val" "s64 (- val) = - val"
    using assms by (auto intro!: s64_id)
  show "s64 (s64 (10 * val + 5) sdiv 10 * 1) = val"
    by (simp add: a b c)
  show "s64 (s64 (10 * val + 5) sdiv 10 * (- 1)) = - val"
    by (simp add: a b c)
qed

lemma parse_digits:
  assumes I: "\<forall>c\<in>set I. is_digit c" "I \<noteq> []" "length I \<le> 10"
    and F: "\<forall>c\<in>set F. is_digit c" "length F \<le> 7"
    and N: "decimal (I @ F) 0 * 10 ^ (8 - length F) = 10 * val"
    and val: "0 \<le> val" "val < 2 ^ 31"
    and tail: "tail = (if F = [] then [] else ''.'' @ F)"
  shows "string_to_location_coordinate (I @ tail) = Inr (val, [])"
    and "string_to_location_coordinate (''-'' @ I @ tail) = Inr (- val, [])"
proof -
  from I(2) obtain d ds where Ids: "I = d # ds" by (cases I) auto
  with I have d: "is_digit d" and ds: "\<forall>c\<in>set ds. is_digit c" and lds: "length ds \<le> 9"
    by auto
  define N1 where "N1 = decimal I 0"
  define N2 where "N2 = decimal (I @ F) 0"
  have N1: "N1 = decimal ds (digit_val d)" by (simp add: N1_def Ids)
  have N2: "N2 = decimal F N1" by (simp add: N2_def N1_def decimal_append)
  have dv: "0 \<le> digit_val d" using d digit_val_range by auto
  have N1_0: "0 \<le> N1" using decimal_ge [OF ds dv] dv by (simp add: N1)
  have N12: "N1 \<le> N2" using decimal_ge [OF F(1) N1_0] by (simp add: N2)
  have "(1::int) \<le> 10 ^ (8 - length F)" by simp
  then have "N2 * 1 \<le> N2 * 10 ^ (8 - length F)"
    using N1_0 N12 by (intro mult_left_mono) auto
  with N have N2_le: "N2 \<le> 10 * val" by (simp add: N2_def)
  with val have N2_lt: "N2 < 2 ^ 63" by simp
  have nt: "\<not> is_digit (peek tail)"
    by (simp add: tail peek_def not_digit_NUL not_digit_point)
  have rd1: "read_digits (ds @ tail) (digit_val d) 10 = (tail, N1, 10 - int (length ds))"
    unfolding N1 using ds nt lds dv N12 N2_lt
    by (intro read_digits_all) (auto simp: N1)
  have ip: "integer_part (I @ tail) = Some (tail, N1)"
    using d lds digit_not_special [OF d]
    by (simp add: integer_part_def Ids peek_def rd1)
  have fp: "fraction_part tail N1 8 = Some ([], N2, 8 - int (length F))"
  proof (cases "F = []")
    case True
    then show ?thesis
      by (simp add: fraction_part_def tail peek_def NUL_def N2)
  next
    case False
    have "read_digits (F @ []) N1 8 = ([], decimal F N1, 8 - int (length F))"
      using F N1_0 N2_lt by (intro read_digits_all) (auto simp: peek_def not_digit_NUL N2)
    with False show ?thesis
      by (simp add: fraction_part_def tail peek_def N2)
  qed
  have sc: "apply_scale N2 (8 - int (length F)) = 10 * val"
  proof -
    have n: "nat (8 - int (length F)) = 8 - length F" by simp
    have "N2 * 10 ^ nat (8 - int (length F)) < 2 ^ 63"
      unfolding n using N val by (simp add: N2_def)
    then have "scale_up N2 (8 - int (length F)) = N2 * 10 ^ nat (8 - int (length F))"
      using F(2) N1_0 N12 by (intro scale_up_pow) auto
    with F(2) N show ?thesis
      by (simp add: apply_scale_def n N2_def)
  qed
  have pk: "peek (I @ tail) \<noteq> CHR ''-''"
    using digit_not_special [OF d] by (simp add: Ids peek_def)
  have rng: "\<not> (val > int32_max \<or> val < int32_min)" "\<not> (- val > int32_max \<or> - val < int32_min)"
    using val by (auto simp: int32_max_def int32_min_def)
  show "string_to_location_coordinate (I @ tail) = Inr (val, [])"
    unfolding string_to_location_coordinate_def
    using pk rng(1) final_rounding(1) [OF val]
    by (simp add: ip fp exponent_part_Nil sc)
  have pm: "peek (''-'' @ I @ tail) = CHR ''-''" "tl (''-'' @ I @ tail) = I @ tail"
    by (simp_all add: peek_def)
  show "string_to_location_coordinate (''-'' @ I @ tail) = Inr (- val, [])"
    unfolding string_to_location_coordinate_def
    using rng(2) final_rounding(2) [OF val]
    by (simp only: pm) (simp add: ip fp exponent_part_Nil sc)
qed

subsection \<open>Formatting, then parsing\<close>

lemma is_digit_zero: "is_digit (CHR ''0'')"
  by (simp add: is_digit_def)

lemma temp_digits: "0 \<le> val \<Longrightarrow> \<forall>c\<in>set (pad_zeros (write_digits val)). is_digit c"
  using write_digits_is_digit [of val] by (auto simp: pad_zeros_eq is_digit_zero)

lemma decimal_append_zeros:
  "decimal (xs @ replicate n (CHR ''0'')) 0 = decimal xs 0 * 10 ^ n"
  using decimal_shift [of "replicate n (CHR ''0'')" "decimal xs 0"]
  by (simp add: decimal_append decimal_zeros)

lemma temp_decimal: "0 \<le> val \<Longrightarrow> decimal (rev (pad_zeros (write_digits val))) 0 = val"
  by (simp add: pad_zeros_eq decimal_append decimal_zeros write_digits_decimal)

lemma chars_value:
  assumes "0 \<le> val" and "val < 2 ^ 31"
  shows "decimal (int_chars val @ frac_chars val) 0 * 10 ^ (7 - length (frac_chars val)) = val"
    and "length (frac_chars val) \<le> 7"
    and "\<forall>c\<in>set (frac_chars val). is_digit c"
    and "\<forall>c\<in>set (int_chars val). is_digit c"
    and "int_chars val \<noteq> []"
    and "length (int_chars val) \<le> 10"
proof -
  let ?P = "\<lambda>c. c = CHR ''0''"
  define temp where "temp = pad_zeros (write_digits val)"
  define Z where "Z = takeWhile ?P (take 7 temp)"
  define D where "D = dropWhile ?P (take 7 temp)"
  have fc: "frac_chars val = rev D"
    by (simp only: frac_chars_def temp_def D_def)
  have dig: "\<forall>c\<in>set temp. is_digit c"
    unfolding temp_def using assms(1) by (rule temp_digits)
  have len7: "7 \<le> length temp"
    by (simp add: temp_def pad_zeros_eq)
  have len10: "length temp \<le> 10"
  proof -
    from assms(2) have "val < 10 ^ Suc 9" by simp
    then have "length (write_digits val) \<le> Suc 9"
      using write_digits_length [OF assms(1), of 9] by blast
    then show ?thesis by (simp add: temp_def pad_zeros_eq)
  qed
  have ZD: "take 7 temp = Z @ D"
    by (simp add: Z_def D_def)
  have "length (Z @ D) = 7"
    using len7 by (simp flip: ZD)
  then have lZD: "length Z + length D = 7" by simp
  have "\<forall>c\<in>set Z. c = CHR ''0''"
    unfolding Z_def by (auto dest: set_takeWhileD)
  then have Zr: "Z = replicate (length Z) (CHR ''0'')"
    by (simp add: replicate_length_same)
  have "temp = take 7 temp @ drop 7 temp" by simp
  then have "rev temp = rev (drop 7 temp) @ rev D @ rev Z"
    by (simp add: ZD flip: rev_append)
  also have "rev Z = replicate (length Z) (CHR ''0'')"
    by (subst Zr) simp
  finally have rt: "rev temp = (rev (drop 7 temp) @ rev D) @ replicate (length Z) (CHR ''0'')"
    by simp
  have "decimal (rev temp) 0 = val"
    unfolding temp_def using assms(1) by (rule temp_decimal)
  then have v: "decimal (rev (drop 7 temp) @ rev D) 0 * 10 ^ length Z = val"
    by (simp only: rt decimal_append_zeros)
  have z: "length Z = 7 - length D" using lZD by simp
  show "length (frac_chars val) \<le> 7"
    using lZD by (simp add: fc)
  have "set D \<subseteq> set (take 7 temp)"
    unfolding D_def by (rule set_dropWhileD [THEN subsetI])
  also have "\<dots> \<subseteq> set temp" by (rule set_take_subset)
  finally show "\<forall>c\<in>set (frac_chars val). is_digit c"
    using dig by (auto simp: fc)
  have "set (drop 7 temp) \<subseteq> set temp" by (rule set_drop_subset)
  with dig have digI: "\<forall>c\<in>set (rev (drop 7 temp)). is_digit c" by auto
  show "\<forall>c\<in>set (int_chars val). is_digit c"
    using digI by (auto simp: int_chars_def is_digit_zero simp flip: temp_def)
  show "length (int_chars val) \<le> 10"
  proof -
    from len10 have "length temp - 7 \<le> 10" by linarith
    then show ?thesis by (simp add: int_chars_def flip: temp_def)
  qed
  show "int_chars val \<noteq> []"
  proof (cases "10000000 \<le> val")
    case False
    then show ?thesis by (simp add: int_chars_def)
  next
    case True
    then have "\<not> val < 10 ^ Suc 6" by simp
    then have "\<not> length (write_digits val) \<le> Suc 6"
      using write_digits_length [OF assms(1), of 6] by blast
    then have "7 < length temp" by (simp add: temp_def pad_zeros_eq)
    with True show ?thesis by (simp add: int_chars_def flip: temp_def)
  qed
  show "decimal (int_chars val @ frac_chars val) 0 * 10 ^ (7 - length (frac_chars val)) = val"
  proof (cases "10000000 \<le> val")
    case True
    with v show ?thesis by (simp add: int_chars_def fc z flip: temp_def)
  next
    case False
    then have "length temp = 7"
      using temp_length(1) [OF assms(1)] by (simp add: temp_def)
    then have "drop 7 temp = []" by simp
    with v False show ?thesis by (simp add: int_chars_def fc z digit_val_def)
  qed
qed

lemma roundtrip_nonneg:
  assumes "0 \<le> val" and "val < 2 ^ 31"
  shows "string_to_location_coordinate (append_location_coordinate_to_string [] val)
      = Inr (val, [])"
    and "string_to_location_coordinate (append_location_coordinate_to_string ''-'' val)
      = Inr (- val, [])"
proof -
  note cv = chars_value [OF assms]
  define tail where "tail = (if frac_chars val = [] then [] else ''.'' @ frac_chars val)"
  have "(10::int) ^ (8 - length (frac_chars val)) = 10 * 10 ^ (7 - length (frac_chars val))"
    using cv(2) by (simp add: Suc_diff_le flip: power_Suc)
  with cv(1) have N: "decimal (int_chars val @ frac_chars val) 0
      * 10 ^ (8 - length (frac_chars val)) = 10 * val"
    by simp
  note p = parse_digits [OF cv(4) cv(5) cv(6) cv(3) cv(2) N assms tail_def]
  have f1: "append_location_coordinate_to_string [] val = int_chars val @ tail"
    using format_nonneg [OF assms, of "[]"] by (simp add: tail_def)
  have f2: "append_location_coordinate_to_string ''-'' val = ''-'' @ int_chars val @ tail"
    using format_nonneg [OF assms, of "''-''"] by (simp add: tail_def)
  show "string_to_location_coordinate (append_location_coordinate_to_string [] val)
      = Inr (val, [])"
    unfolding f1 by (rule p(1))
  show "string_to_location_coordinate (append_location_coordinate_to_string ''-'' val)
      = Inr (- val, [])"
    unfolding f2 by (rule p(2))
qed

lemma roundtrip_int32:
  assumes "- (2 ^ 31) < v" and "v < 2 ^ 31"
  shows "string_to_location_coordinate (append_location_coordinate_to_string [] v) = Inr (v, [])"
proof (cases "0 \<le> v")
  case True
  then show ?thesis using assms(2) by (rule roundtrip_nonneg(1))
next
  case False
  then have neg: "v < 0" by simp
  have a: "0 \<le> - v" "- v < 2 ^ 31" using assms(1) neg by auto
  have "append_location_coordinate_to_string [] v
      = append_location_coordinate_to_string ''-'' (- v)"
    using format_negative [OF assms(1) neg, of "[]"] by simp
  with roundtrip_nonneg(2) [OF a] show ?thesis by simp
qed

text \<open>
  Claim C1. For every coordinate \<open>v\<close> that passes the range check of \<open>valid()\<close>, as the
  \<open>x\<close> of a valid Location (\<open>-1800000000 \<le> v \<le> 1800000000\<close>) or as the \<open>y\<close> of one
  (\<open>-900000000 \<le> v \<le> 900000000\<close>), the parser accepts the string the formatter writes
  for \<open>v\<close>, consumes all of it and returns \<open>v\<close>.
\<close>

theorem format_parse_roundtrip:
  assumes "valid \<lparr>m_x = v, m_y = y\<rparr> \<or> valid \<lparr>m_x = x, m_y = v\<rparr>"
  shows "string_to_location_coordinate (append_location_coordinate_to_string [] v) = Inr (v, [])"
proof -
  from assms have "- (2 ^ 31) < v" and "v < 2 ^ 31"
    by (auto simp: valid_def coordinate_precision_def)
  then show ?thesis by (rule roundtrip_int32)
qed

theorem format_parse_roundtrip_witness:
  "valid \<lparr>m_x = - 1234567890, m_y = 0\<rparr>
   \<and> valid \<lparr>m_x = 0, m_y = 900000000\<rparr>
   \<and> append_location_coordinate_to_string [] (- 1234567890) = ''-123.456789''
   \<and> string_to_location_coordinate ''-123.456789'' = Inr (- 1234567890, [])
   \<and> append_location_coordinate_to_string [] 900000000 = ''90''
   \<and> string_to_location_coordinate ''90'' = Inr (900000000, [])"
proof -
  have v: "valid \<lparr>m_x = - 1234567890, m_y = 0\<rparr>" "valid \<lparr>m_x = 0, m_y = 900000000\<rparr>"
    by (simp_all add: valid_def coordinate_precision_def)
  have f: "append_location_coordinate_to_string [] (- 1234567890) = ''-123.456789''"
    "append_location_coordinate_to_string [] 900000000 = ''90''"
    by code_simp+
  have a: "string_to_location_coordinate (append_location_coordinate_to_string [] (- 1234567890))
      = Inr (- 1234567890, [])"
    using v(1) by (intro format_parse_roundtrip [of "- 1234567890" 0]) simp
  have b: "string_to_location_coordinate (append_location_coordinate_to_string [] 900000000)
      = Inr (900000000, [])"
    using v(2) by (intro format_parse_roundtrip [of _ _ 0]) simp
  from a b v f show ?thesis by simp
qed

subsection \<open>Minimal output\<close>

lemma nonzero_digit:
  assumes "is_digit c" and "c \<noteq> CHR ''0''"
  shows "0 < digit_val c"
proof -
  have z: "(of_char (CHR ''0'') :: nat) = 48" by simp
  have "(of_char c :: nat) \<noteq> 48"
  proof
    assume "(of_char c :: nat) = 48"
    with z have "(of_char c :: nat) = of_char (CHR ''0'')" by simp
    then have "c = CHR ''0''" by (simp only: of_char_eq_iff)
    with assms(2) show False by simp
  qed
  with assms(1) show ?thesis
    by (simp add: is_digit_def digit_val_def)
qed

lemma frac_chars_facts:
  assumes "0 \<le> val" and "val < 2 ^ 31"
  shows "frac_chars val = [] \<longleftrightarrow> val mod 10000000 = 0"
    and "frac_chars val \<noteq> [] \<Longrightarrow>
      is_digit (last (frac_chars val)) \<and> last (frac_chars val) \<noteq> CHR ''0''"
proof -
  let ?P = "\<lambda>c. c = CHR ''0''"
  define temp where "temp = pad_zeros (write_digits val)"
  define Z where "Z = takeWhile ?P (take 7 temp)"
  define D where "D = dropWhile ?P (take 7 temp)"
  have fc: "frac_chars val = rev D"
    by (simp only: frac_chars_def temp_def D_def)
  have dig: "\<forall>c\<in>set temp. is_digit c"
    unfolding temp_def using assms(1) by (rule temp_digits)
  have len7: "7 \<le> length temp"
    by (simp add: temp_def pad_zeros_eq)
  have ZD: "take 7 temp = Z @ D"
    by (simp add: Z_def D_def)
  have "\<forall>c\<in>set Z. c = CHR ''0''"
    unfolding Z_def by (auto dest: set_takeWhileD)
  then have Zr: "Z = replicate (length Z) (CHR ''0'')"
    by (simp add: replicate_length_same)
  have "rev Z = replicate (length Z) (CHR ''0'')"
    by (subst Zr) simp
  then have rt: "rev (take 7 temp) = rev D @ replicate (length Z) (CHR ''0'')"
    by (simp add: ZD)
  have "set D \<subseteq> set (take 7 temp)"
    unfolding D_def by (rule set_dropWhileD [THEN subsetI])
  also have "\<dots> \<subseteq> set temp" by (rule set_take_subset)
  finally have digD: "\<forall>c\<in>set D. is_digit c" using dig by auto
  have hdD: "is_digit (hd D) \<and> hd D \<noteq> CHR ''0''" if "D \<noteq> []"
  proof -
    from that have "hd D \<in> set D" by simp
    with digD have "is_digit (hd D)" by blast
    moreover have "hd D \<noteq> CHR ''0''"
      using hd_dropWhile [of ?P "take 7 temp"] that by (simp add: D_def)
    ultimately show ?thesis by simp
  qed
  show "frac_chars val \<noteq> [] \<Longrightarrow>
      is_digit (last (frac_chars val)) \<and> last (frac_chars val) \<noteq> CHR ''0''"
    using hdD by (simp add: fc last_rev)
  define f where "f = decimal (rev (take 7 temp)) 0"
  have "\<forall>c\<in>set (rev (take 7 temp)). is_digit c"
    using dig by (auto dest: in_set_takeD)
  from decimal_bounds [OF this] len7 have fb: "0 \<le> f" "f < 10000000"
    by (simp_all add: f_def)
  have "temp = take 7 temp @ drop 7 temp" by simp
  then have "rev temp = rev (drop 7 temp) @ rev (take 7 temp)"
    by (simp flip: rev_append)
  then have "decimal (rev temp) 0 = decimal (rev (take 7 temp)) (decimal (rev (drop 7 temp)) 0)"
    by (simp only: decimal_append)
  also have "\<dots> = decimal (rev (drop 7 temp)) 0 * 10 ^ length (rev (take 7 temp)) + f"
    unfolding f_def by (rule decimal_shift)
  also have "length (rev (take 7 temp)) = 7" using len7 by simp
  finally have "decimal (rev temp) 0 = decimal (rev (drop 7 temp)) 0 * 10000000 + f"
    by simp
  moreover have "decimal (rev temp) 0 = val"
    unfolding temp_def using assms(1) by (rule temp_decimal)
  ultimately have "val = decimal (rev (drop 7 temp)) 0 * 10000000 + f" by simp
  then have "val mod 10000000 = f mod 10000000" by simp
  with fb have vm: "val mod 10000000 = f" by simp
  have fD: "f = decimal (rev D) 0 * 10 ^ length Z"
    by (simp only: f_def rt decimal_append_zeros)
  show "frac_chars val = [] \<longleftrightarrow> val mod 10000000 = 0"
  proof (cases "D = []")
    case True
    then show ?thesis by (simp add: fc vm fD)
  next
    case False
    then have D: "D = hd D # tl D" by simp
    have "\<forall>c\<in>set (rev (tl D)). is_digit c"
      using digD False by (auto dest: list.set_sel(2))
    from decimal_bounds [OF this] have t0: "0 \<le> decimal (rev (tl D)) 0" by simp
    have "rev D = rev (tl D) @ [hd D]" by (subst D) simp
    then have "decimal (rev D) 0 = decimal (rev (tl D)) 0 * 10 + digit_val (hd D)"
      by (simp add: decimal_append)
    moreover have "0 < digit_val (hd D)"
      using hdD [OF False] by (intro nonzero_digit) auto
    ultimately have "0 < decimal (rev D) 0" using t0 by simp
    then have "0 < f" by (simp add: fD)
    with False show ?thesis by (simp add: fc vm)
  qed
qed

lemma format_nonneg_minimal:
  assumes "0 \<le> val" and "val < 2 ^ 31" and "CHR ''.'' \<notin> set it"
  shows "CHR ''.'' \<in> set (append_location_coordinate_to_string it val)
      \<longleftrightarrow> val mod 10000000 \<noteq> 0"
    and "val mod 10000000 \<noteq> 0 \<Longrightarrow>
      is_digit (last (append_location_coordinate_to_string it val))
      \<and> last (append_location_coordinate_to_string it val) \<noteq> CHR ''0''"
proof -
  note cv = chars_value [OF assms(1,2)]
  note ff = frac_chars_facts [OF assms(1,2)]
  have f: "append_location_coordinate_to_string it val =
      it @ int_chars val @ (if frac_chars val = [] then [] else ''.'' @ frac_chars val)"
    using assms(1,2) by (rule format_nonneg)
  have ni: "CHR ''.'' \<notin> set (int_chars val)"
    using cv(4) not_digit_point by blast
  have nf: "CHR ''.'' \<notin> set (frac_chars val)"
    using cv(3) not_digit_point by blast
  show "CHR ''.'' \<in> set (append_location_coordinate_to_string it val)
      \<longleftrightarrow> val mod 10000000 \<noteq> 0"
    unfolding f using ni nf assms(3) ff(1) by simp
  show "is_digit (last (append_location_coordinate_to_string it val))
      \<and> last (append_location_coordinate_to_string it val) \<noteq> CHR ''0''"
    if "val mod 10000000 \<noteq> 0"
  proof -
    from that ff(1) have ne: "frac_chars val \<noteq> []" by simp
    with f have "last (append_location_coordinate_to_string it val) = last (frac_chars val)"
      by simp
    with ff(2) [OF ne] show ?thesis by simp
  qed
qed

text \<open>
  Away from the least \<open>int32_t\<close> the formatter is minimal: the output has a decimal
  point exactly when the value is not a multiple of 10000000, and then it ends in a
  digit other than \<open>0\<close>.
\<close>

lemma format_minimal:
  assumes "- (2 ^ 31) < v" and "v < 2 ^ 31"
  shows "(CHR ''.'' \<in> set (append_location_coordinate_to_string [] v)
        \<longleftrightarrow> v mod 10000000 \<noteq> 0)
    \<and> (CHR ''.'' \<in> set (append_location_coordinate_to_string [] v) \<longrightarrow>
        is_digit (last (append_location_coordinate_to_string [] v))
        \<and> last (append_location_coordinate_to_string [] v) \<noteq> CHR ''0'')"
proof (cases "0 \<le> v")
  case True
  have n: "CHR ''.'' \<notin> set []" by simp
  from format_nonneg_minimal [OF True assms(2) n] show ?thesis by blast
next
  case False
  then have neg: "v < 0" by simp
  have a: "0 \<le> - v" "- v < 2 ^ 31" using assms(1) neg by auto
  have n: "CHR ''.'' \<notin> set ''-''" by simp
  have e: "append_location_coordinate_to_string [] v
      = append_location_coordinate_to_string ''-'' (- v)"
    using format_negative [OF assms(1) neg, of "[]"] by simp
  have m: "(- v) mod 10000000 \<noteq> 0 \<longleftrightarrow> v mod 10000000 \<noteq> 0"
    by (simp add: mod_eq_0_iff_dvd)
  from format_nonneg_minimal [OF a n] show ?thesis
    unfolding e m by blast
qed

end
